theory Spec2Isabelle
  imports Complex_Main "HOL-Library.Sublist"
begin

section \<open>JavaScript strings\<close>

text \<open>
  A JavaScript string is a sequence of UTF-16 code units. The model covers the strings
  whose code units are below 256 (ASCII and Latin-1 text): one \<^typ>\<open>char\<close> is one code
  unit. On these, \<^verbatim>\<open>String.prototype.toLowerCase\<close> maps \<^verbatim>\<open>A-Z\<close> and the Latin-1
  capitals \<^verbatim>\<open>U+00C0..U+00DE\<close> (the multiplication sign \<^verbatim>\<open>U+00D7\<close> apart) to the code
  unit 32 above, and leaves every other code unit alone.
\<close>

definition lower_char :: "char \<Rightarrow> char" where
  "lower_char c =
     (let n = of_char c :: nat
      in if (65 \<le> n \<and> n \<le> 90) \<or> (192 \<le> n \<and> n \<le> 222 \<and> n \<noteq> 215)
         then char_of (n + 32) else c)"

definition toLowerCase :: "string \<Rightarrow> string" where
  "toLowerCase s = map lower_char s"

text \<open>
  \<^verbatim>\<open>text.includes(k)\<close>: \<^verbatim>\<open>k\<close> occurs in \<^verbatim>\<open>text\<close> as a run of consecutive code units;
  the empty string occurs in every string.
\<close>

fun starts_with :: "string \<Rightarrow> string \<Rightarrow> bool" where
  "starts_with s [] = True"
| "starts_with [] (k # ks) = False"
| "starts_with (c # cs) (k # ks) = (c = k \<and> starts_with cs ks)"

fun includes_str :: "string \<Rightarrow> string \<Rightarrow> bool" where
  "includes_str [] k = starts_with [] k"
| "includes_str (c # cs) k = (starts_with (c # cs) k \<or> includes_str cs k)"

section \<open>Keyword scoring\<close>

text \<open>
  \<^verbatim>\<open>keywords.filter(k => text.includes(k)).length\<close>: the number of entries of the
  keyword array that occur in the text. The expression is written out in
  \<^verbatim>\<open>classifyTicket\<close> (for the categories and for both sentiment lexicons) and in
  \<^verbatim>\<open>categorizeExpense\<close>.
\<close>

definition hits :: "string \<Rightarrow> string list \<Rightarrow> nat" where
  "hits txt kws = length (filter (\<lambda>k. includes_str txt k) kws)"

text \<open>
  The body of the \<^verbatim>\<open>forEach\<close> callback of both classifiers, on the pair of the two
  \<^verbatim>\<open>let\<close> variables \<^verbatim>\<open>bestCategory\<close> and \<^verbatim>\<open>bestScore\<close>:
  \<^verbatim>\<open>if (score > bestScore) { bestScore = score; bestCategory = cat; }\<close>
\<close>

fun select_step :: "string \<Rightarrow> string \<times> string list \<Rightarrow> string \<times> nat \<Rightarrow> string \<times> nat" where
  "select_step txt (cat, kws) (bestCategory, bestScore) =
     (let score = hits txt kws
      in if score > bestScore then (cat, score) else (bestCategory, bestScore))"

text \<open>
  \<^verbatim>\<open>Number.prototype.toFixed(1)\<close>: the number of tenths closest to the value, the larger
  one of two equally close. The string it returns is modelled by the number it denotes.
  JavaScript numbers are IEEE doubles; the model computes with real numbers.
\<close>

definition toFixed1 :: "real \<Rightarrow> real" where
  "toFixed1 x = of_int \<lfloor>x * 10 + 1 / 2\<rfloor> / 10"

section \<open>Support tickets: \<^verbatim>\<open>classifyTicket\<close>\<close>

datatype js_error = TypeError

record category_info =
  info_keywords :: "string list"
  info_priority :: string
  info_dept :: string

text \<open>
  The object literal \<^verbatim>\<open>categories\<close>. Its keys are not array indices, so
  \<^verbatim>\<open>Object.entries\<close> lists them in the order they are written.
\<close>

definition categories :: "(string \<times> category_info) list" where
  "categories =
    [(''Infrastructure'', \<lparr>info_keywords = [''road'', ''bridge'', ''building'', ''pothole'', ''construction'', ''repair'', ''maintenance'', ''broken'', ''damage''], info_priority = ''high'', info_dept = ''Public Works''\<rparr>),
     (''Water Supply'', \<lparr>info_keywords = [''water'', ''pipe'', ''leakage'', ''supply'', ''sewage'', ''drainage'', ''flood'', ''contamination''], info_priority = ''critical'', info_dept = ''Water Board''\<rparr>),
     (''Electricity'', \<lparr>info_keywords = [''power'', ''electricity'', ''outage'', ''transformer'', ''wire'', ''voltage'', ''electric'', ''light'', ''pole''], info_priority = ''high'', info_dept = ''Power Distribution''\<rparr>),
     (''Sanitation'', \<lparr>info_keywords = [''garbage'', ''waste'', ''cleaning'', ''hygiene'', ''trash'', ''dump'', ''sanitation'', ''smell''], info_priority = ''medium'', info_dept = ''Municipal Sanitation''\<rparr>),
     (''Traffic'', \<lparr>info_keywords = [''traffic'', ''signal'', ''parking'', ''accident'', ''speed'', ''jam'', ''congestion'', ''vehicle''], info_priority = ''high'', info_dept = ''Traffic Police''\<rparr>),
     (''Public Safety'', \<lparr>info_keywords = [''safety'', ''crime'', ''theft'', ''harassment'', ''violence'', ''police'', ''security'', ''emergency''], info_priority = ''critical'', info_dept = ''Law Enforcement''\<rparr>),
     (''Education'', \<lparr>info_keywords = [''school'', ''education'', ''teacher'', ''student'', ''college'', ''admission'', ''scholarship''], info_priority = ''medium'', info_dept = ''Education Board''\<rparr>),
     (''Healthcare'', \<lparr>info_keywords = [''hospital'', ''health'', ''medicine'', ''doctor'', ''clinic'', ''vaccination'', ''disease''], info_priority = ''high'', info_dept = ''Health Department''\<rparr>),
     (''General'', \<lparr>info_keywords = [], info_priority = ''low'', info_dept = ''General Administration''\<rparr>)]"

definition sentiment_positive :: "string list" where
  "sentiment_positive = [''thank'', ''good'', ''great'', ''excellent'', ''happy'', ''appreciate'', ''helpful'']"

definition sentiment_negative :: "string list" where
  "sentiment_negative = [''bad'', ''terrible'', ''worst'', ''angry'', ''frustrat'', ''disappoint'', ''horrible'', ''urgent'', ''compla'']"

record classification =
  category :: string
  confidence :: real

record ticket = classification +
  priority :: string
  department :: string
  sentiment :: string
  estimated_response :: string

text \<open>
  The two \<^verbatim>\<open>let\<close> variables after the \<^verbatim>\<open>forEach\<close> over
  \<^verbatim>\<open>Object.entries(categories)\<close>, for the lower-cased text.
\<close>

definition ticket_best :: "string \<Rightarrow> string \<times> nat" where
  "ticket_best txt =
     fold (\<lambda>(cat, info). select_step txt (cat, info_keywords info)) categories (''General'', 0)"

text \<open>The (name, keyword array) pairs that the loop of \<^verbatim>\<open>classifyTicket\<close> reads.\<close>

definition ticket_entries :: "(string \<times> string list) list" where
  "ticket_entries = map (\<lambda>(cat, info). (cat, info_keywords info)) categories"

text \<open>
  \<^verbatim>\<open>Math.min(95, 60 + bestScore * 12 + Math.random() * 10).toFixed(1)\<close>, with the value
  \<^verbatim>\<open>rnd\<close> that \<^verbatim>\<open>Math.random()\<close> returned (a number from 0 up to, not including, 1).
\<close>

definition ticket_confidence :: "nat \<Rightarrow> real \<Rightarrow> real" where
  "ticket_confidence bestScore rnd = toFixed1 (min 95 (60 + real bestScore * 12 + rnd * 10))"

text \<open>
  \<^verbatim>\<open>classifyTicket(subject, description)\<close>; \<^verbatim>\<open>rnd\<close> is the value of its one call of
  \<^verbatim>\<open>Math.random()\<close>. \<^verbatim>\<open>categories[bestCategory]\<close> is \<^verbatim>\<open>undefined\<close> for a name that
  is not among its keys, and reading \<^verbatim>\<open>catInfo.priority\<close> then throws a \<^verbatim>\<open>TypeError\<close>.
\<close>

definition classifyTicket :: "string \<Rightarrow> string \<Rightarrow> real \<Rightarrow> js_error + ticket" where
  "classifyTicket subject description rnd =
     (let txt = toLowerCase (subject @ '' '' @ description);
          (bestCategory, bestScore) = ticket_best txt;
          posCount = hits txt sentiment_positive;
          negCount = hits txt sentiment_negative;
          sentiment = (if posCount > negCount then ''Positive''
                       else if negCount > posCount then ''Negative'' else ''Neutral'')
      in case map_of categories bestCategory of
           None \<Rightarrow> Inl TypeError
         | Some catInfo \<Rightarrow>
             Inr \<lparr>category = bestCategory,
                  confidence = ticket_confidence bestScore rnd,
                  priority = info_priority catInfo,
                  department = info_dept catInfo,
                  sentiment = sentiment,
                  estimated_response =
                    (if info_priority catInfo = ''critical'' then ''2-4 hours''
                     else if info_priority catInfo = ''high'' then ''24-48 hours'' else ''3-5 days'')\<rparr>)"

section \<open>Expenses: \<^verbatim>\<open>categorizeExpense\<close> and the \<^verbatim>\<open>anomalies\<close> memo\<close>

text \<open>The object literal \<^verbatim>\<open>categoryKeywords\<close>, in the order of \<^verbatim>\<open>Object.entries\<close>.\<close>

definition categoryKeywords :: "(string \<times> string list) list" where
  "categoryKeywords =
    [(''Food & Dining'', [''restaurant'', ''food'', ''pizza'', ''burger'', ''coffee'', ''cafe'', ''lunch'', ''dinner'', ''breakfast'', ''eat'', ''dine'', ''swiggy'', ''zomato'', ''uber eats'', ''meal'', ''snack'', ''drink'', ''bakery'', ''ice cream'']),
     (''Transportation'', [''uber'', ''ola'', ''taxi'', ''fuel'', ''petrol'', ''diesel'', ''gas'', ''metro'', ''bus'', ''train'', ''flight'', ''parking'', ''toll'', ''auto'', ''cab'', ''commute'', ''travel'']),
     (''Shopping'', [''amazon'', ''flipkart'', ''mall'', ''store'', ''shop'', ''clothing'', ''shoes'', ''electronic'', ''gadget'', ''fashion'', ''retail'', ''market'', ''purchase'', ''buy'']),
     (''Utilities'', [''electricity'', ''water'', ''gas'', ''internet'', ''wifi'', ''phone'', ''mobile'', ''recharge'', ''bill'', ''broadband'', ''prepaid'', ''postpaid'', ''maintenance'']),
     (''Entertainment'', [''movie'', ''netflix'', ''spotify'', ''gaming'', ''concert'', ''theater'', ''subscription'', ''disney'', ''prime'', ''youtube'', ''music'', ''book'', ''magazine'']),
     (''Healthcare'', [''doctor'', ''medicine'', ''pharmacy'', ''hospital'', ''clinic'', ''dental'', ''health'', ''medical'', ''lab'', ''test'', ''insurance'', ''therapy'', ''consultation'']),
     (''Education'', [''course'', ''tuition'', ''book'', ''udemy'', ''coursera'', ''school'', ''college'', ''training'', ''certification'', ''exam'', ''class'', ''tutorial'']),
     (''Groceries'', [''grocery'', ''supermarket'', ''vegetables'', ''fruits'', ''milk'', ''bread'', ''bigbasket'', ''dmart'', ''reliance fresh'', ''organic'', ''provisions'']),
     (''Rent & Housing'', [''rent'', ''housing'', ''apartment'', ''flat'', ''maintenance'', ''society'', ''emi'', ''mortgage'', ''property'']),
     (''Personal Care'', [''salon'', ''spa'', ''haircut'', ''beauty'', ''cosmetic'', ''gym'', ''fitness'', ''yoga'', ''grooming''])]"

definition expense_best :: "string \<Rightarrow> string \<times> nat" where
  "expense_best lower = fold (select_step lower) categoryKeywords (''Other'', 0)"

text \<open>\<^verbatim>\<open>Math.min(95, 50 + bestScore * 15 + Math.random() * 10).toFixed(1)\<close>\<close>

definition expense_confidence :: "nat \<Rightarrow> real \<Rightarrow> real" where
  "expense_confidence bestScore rnd = toFixed1 (min 95 (50 + real bestScore * 15 + rnd * 10))"

definition categorizeExpense :: "string \<Rightarrow> real \<Rightarrow> classification" where
  "categorizeExpense description rnd =
     (let lower = toLowerCase description;
          (bestCategory, bestScore) = expense_best lower
      in \<lparr>category = bestCategory, confidence = expense_confidence bestScore rnd\<rparr>)"

text \<open>
  An entry of the \<^verbatim>\<open>expenses\<close> state, as \<^verbatim>\<open>parseCSV\<close> and \<^verbatim>\<open>handleManualAdd\<close> build it:
  \<^verbatim>\<open>{ description, amount, date }\<close>. Amounts are finite numbers, taken as reals.
\<close>

record expense =
  raw_description :: string
  raw_amount :: real
  raw_date :: string

text \<open>
  An entry of \<^verbatim>\<open>categorized\<close>: \<^verbatim>\<open>{ ...e, ...categorizeExpense(e.description) }\<close>.
\<close>

record categorized_expense = classification +
  description :: string
  amount :: real
  date :: string

text \<open>
  \<^verbatim>\<open>expenses.map(e => ({ ...e, ...categorizeExpense(e.description) }))\<close>; \<^verbatim>\<open>rnd i\<close> is
  the value of \<^verbatim>\<open>Math.random()\<close> in the call for the entry at index \<^verbatim>\<open>i\<close>.
\<close>

definition categorized :: "expense list \<Rightarrow> (nat \<Rightarrow> real) \<Rightarrow> categorized_expense list" where
  "categorized expenses rnd =
     map (\<lambda>(i, e). let c = categorizeExpense (raw_description e) (rnd i)
                    in \<lparr>category = category c, confidence = confidence c,
                        description = raw_description e, amount = raw_amount e,
                        date = raw_date e\<rparr>)
         (enumerate 0 expenses)"

text \<open>
  \<^verbatim>\<open>categoryStats\<close> starts as the object literal \<^verbatim>\<open>{}\<close>: it has no key of its own and
  inherits those of \<^verbatim>\<open>Object.prototype\<close>, whose values are functions (an object for
  \<^verbatim>\<open>__proto__\<close>), all of them truthy and none with a \<^verbatim>\<open>push\<close> method.
\<close>

definition object_prototype_keys :: "string list" where
  "object_prototype_keys =
    [''constructor'', ''__proto__'', ''hasOwnProperty'', ''isPrototypeOf'',
     ''propertyIsEnumerable'', ''toLocaleString'', ''toString'', ''valueOf'',
     ''__defineGetter__'', ''__defineSetter__'', ''__lookupGetter__'', ''__lookupSetter__'']"

text \<open>
  The callback of the first loop:
  \<^verbatim>\<open>if (!categoryStats[e.category]) categoryStats[e.category] = [];\<close>
  \<^verbatim>\<open>categoryStats[e.category].push(e.amount);\<close>
  An array is truthy even when empty, so a key of its own is never reset; for an inherited
  key nothing is assigned and the call of \<^verbatim>\<open>push\<close> throws.
\<close>

definition stats_step ::
  "categorized_expense \<Rightarrow> (string \<rightharpoonup> real list) \<Rightarrow> js_error + (string \<rightharpoonup> real list)" where
  "stats_step e categoryStats =
     (case categoryStats (category e) of
        Some amounts \<Rightarrow> Inr (categoryStats(category e \<mapsto> amounts @ [amount e]))
      | None \<Rightarrow>
          if category e \<in> set object_prototype_keys then Inl TypeError
          else Inr (categoryStats(category e \<mapsto> [amount e])))"

fun build_stats ::
  "categorized_expense list \<Rightarrow> (string \<rightharpoonup> real list) \<Rightarrow> js_error + (string \<rightharpoonup> real list)" where
  "build_stats [] categoryStats = Inr categoryStats"
| "build_stats (e # es) categoryStats =
     (case stats_step e categoryStats of
        Inl err \<Rightarrow> Inl err
      | Inr categoryStats' \<Rightarrow> build_stats es categoryStats')"

text \<open>
  \<^verbatim>\<open>amounts.reduce((s, v) => s + v, 0) / amounts.length\<close> and
  \<^verbatim>\<open>Math.sqrt(amounts.reduce((s, v) => s + (v - mean) ** 2, 0) / amounts.length)\<close>
\<close>

definition mean_of :: "real list \<Rightarrow> real" where
  "mean_of amounts = foldl (\<lambda>s v. s + v) 0 amounts / real (length amounts)"

definition std_of :: "real list \<Rightarrow> real" where
  "std_of amounts =
     sqrt (foldl (\<lambda>s v. s + (v - mean_of amounts) ^ 2) 0 amounts / real (length amounts))"

text \<open>
  The callback of \<^verbatim>\<open>categorized.filter\<close>, whose last line is
  \<^verbatim>\<open>return std > 0 && Math.abs(e.amount - mean) > 2 * std\<close>. \<^verbatim>\<open>amounts.length\<close> throws
  when \<^verbatim>\<open>amounts\<close> is \<^verbatim>\<open>undefined\<close>.

  JavaScript rounds every sum, quotient, square and square root to a double; \<open>mean_of\<close>
  and \<open>std_of\<close> are exact. The two tests can disagree where a deviation lies within
  rounding error of twice the standard deviation, or where a square leaves the range of
  doubles. What is stated below about the memo therefore either holds whatever the
  values of mean and standard deviation are (its shape, its guards, the fields it reads,
  its errors), or is about batches whose sums, mean, deviations and squares are exact in
  doubles and whose deviations are far from the threshold.
\<close>

definition is_anomaly ::
  "(string \<rightharpoonup> real list) \<Rightarrow> categorized_expense \<Rightarrow> js_error + bool" where
  "is_anomaly categoryStats e =
     (case categoryStats (category e) of
        None \<Rightarrow> Inl TypeError
      | Some amounts \<Rightarrow>
          if length amounts < 2 then Inr False
          else let mean = mean_of amounts; std = std_of amounts
               in Inr (std > 0 \<and> \<bar>amount e - mean\<bar> > 2 * std))"

text \<open>\<^verbatim>\<open>Array.prototype.filter\<close> with a callback that may throw.\<close>

fun filter_js :: "('a \<Rightarrow> js_error + bool) \<Rightarrow> 'a list \<Rightarrow> js_error + 'a list" where
  "filter_js f [] = Inr []"
| "filter_js f (x # xs) =
     (case f x of
        Inl err \<Rightarrow> Inl err
      | Inr keep \<Rightarrow>
          (case filter_js f xs of
             Inl err \<Rightarrow> Inl err
           | Inr out \<Rightarrow> Inr (if keep then x # out else out)))"

text \<open>
  The \<^verbatim>\<open>anomalies\<close> memo of the component, a function of \<^verbatim>\<open>categorized\<close>: the first
  loop fills \<^verbatim>\<open>categoryStats\<close>, then \<^verbatim>\<open>categorized.filter\<close> runs the callback.
\<close>

definition anomalies :: "categorized_expense list \<Rightarrow> js_error + categorized_expense list" where
  "anomalies cat_expenses =
     (case build_stats cat_expenses Map.empty of
        Inl err \<Rightarrow> Inl err
      | Inr categoryStats \<Rightarrow> filter_js (is_anomaly categoryStats) cat_expenses)"

text \<open>
  Line 40 of \<^verbatim>\<open>analyzeText\<close> and the \<^verbatim>\<open>score\<close> field it returns:
  \<^verbatim>\<open>score = Math.max(5, Math.min(98, score + (Math.random() * 10 - 5)))\<close>, then
  \<^verbatim>\<open>score.toFixed(1)\<close>; \<^verbatim>\<open>score0\<close> is the value of \<^verbatim>\<open>score\<close> before that line.
\<close>

definition analyzeText_score :: "real \<Rightarrow> real \<Rightarrow> real" where
  "analyzeText_score score0 rnd = toFixed1 (max 5 (min 98 (score0 + (rnd * 10 - 5))))"

section \<open>Notions used in the statements\<close>

text \<open>
  The amounts of the entries of a batch that have a given category, in the order of the
  batch: what \<^verbatim>\<open>categoryStats[c]\<close> holds after the first loop.
\<close>

definition group_of :: "string \<Rightarrow> categorized_expense list \<Rightarrow> real list" where
  "group_of c cat_expenses = map amount (filter (\<lambda>x. category x = c) cat_expenses)"

text \<open>
  The test of the \<^verbatim>\<open>filter\<close> callback on an array of amounts and the amount of the entry.
\<close>

definition exceeds :: "real list \<Rightarrow> real \<Rightarrow> bool" where
  "exceeds amounts v =
     (2 \<le> length amounts \<and> std_of amounts > 0 \<and> \<bar>v - mean_of amounts\<bar> > 2 * std_of amounts)"

text \<open>The two fields of an entry that the \<^verbatim>\<open>anomalies\<close> memo reads.\<close>

definition record_key :: "categorized_expense \<Rightarrow> string \<times> real" where
  "record_key e = (category e, amount e)"



text \<open>A run in which every call of \<^verbatim>\<open>Math.random()\<close> returns 0.\<close>

definition zero_jitter :: "nat \<Rightarrow> real" where
  "zero_jitter i = 0"

text \<open>
  A batch with a group of six (five amounts of 10 and one of 100), a group of one with a
  very large amount, and a group of two equal amounts.
\<close>

definition sample_expenses :: "expense list" where
  "sample_expenses =
    [\<lparr>raw_description = ''Coffee'', raw_amount = 10, raw_date = ''2/1/2026''\<rparr>,
     \<lparr>raw_description = ''Coffee'', raw_amount = 10, raw_date = ''2/2/2026''\<rparr>,
     \<lparr>raw_description = ''Coffee'', raw_amount = 10, raw_date = ''2/3/2026''\<rparr>,
     \<lparr>raw_description = ''Rent'', raw_amount = 1000000, raw_date = ''2/3/2026''\<rparr>,
     \<lparr>raw_description = ''Coffee'', raw_amount = 10, raw_date = ''2/4/2026''\<rparr>,
     \<lparr>raw_description = ''Taxi'', raw_amount = 50, raw_date = ''2/4/2026''\<rparr>,
     \<lparr>raw_description = ''Coffee'', raw_amount = 10, raw_date = ''2/5/2026''\<rparr>,
     \<lparr>raw_description = ''Coffee'', raw_amount = 100, raw_date = ''2/6/2026''\<rparr>,
     \<lparr>raw_description = ''Taxi'', raw_amount = 50, raw_date = ''2/7/2026''\<rparr>]"

text \<open>
  The code units below 256 that JavaScript counts as white space or line terminators:
  tab, line feed, vertical tab, form feed, carriage return, space and no-break space.
\<close>

definition whitespace :: "string" where
  "whitespace = [CHR 0x09, CHR 0x0A, CHR 0x0B, CHR 0x0C, CHR 0x0D, CHR 0x20, CHR 0xA0]"

section \<open>The selection loop\<close>

text \<open>
  Three facts about the loop of both classifiers, from any starting pair: it changes
  nothing when no entry scores above the starting score; its score stays below a bound
  that every entry and the starting score stay below; and it ends on the first entry that
  reaches the highest score.
\<close>

lemma select_keep:
  "\<forall>e\<in>set es. hits txt (snd e) \<le> s \<Longrightarrow> fold (select_step txt) es (b, s) = (b, s)"
  by (induction es) auto

lemma select_below:
  "\<forall>e\<in>set es. hits txt (snd e) < m \<Longrightarrow> s < m \<Longrightarrow> snd (fold (select_step txt) es (b, s)) < m"
  by (induction es arbitrary: b s) (auto simp: Let_def)

lemma select_first_max:
  assumes "i < length es" and "hits txt (snd (es ! i)) = m" and "s < m"
    and "\<forall>e\<in>set es. hits txt (snd e) \<le> m"
    and "\<forall>e\<in>set (take i es). hits txt (snd e) < m"
  shows "fold (select_step txt) es (b, s) = (fst (es ! i), m)"
proof -
  have split: "es = take i es @ es ! i # drop (Suc i) es"
    using assms(1) by (simp add: id_take_nth_drop)
  obtain b' s' where pre: "fold (select_step txt) (take i es) (b, s) = (b', s')"
    by (cases "fold (select_step txt) (take i es) (b, s)")
  from select_below[OF assms(5) assms(3), of b] pre have s': "s' < m" by simp
  have step: "select_step txt (es ! i) (b', s') = (fst (es ! i), m)"
    using s' assms(2) by (cases "es ! i") (simp add: Let_def)
  have rest: "\<forall>e\<in>set (drop (Suc i) es). hits txt (snd e) \<le> m"
    using assms(4) by (blast dest: in_set_dropD)
  have "fold (select_step txt) es (b, s) =
        fold (select_step txt) (drop (Suc i) es) (select_step txt (es ! i) (fold (select_step txt) (take i es) (b, s)))"
    by (subst split) simp
  also have "\<dots> = (fst (es ! i), m)"
    using pre step select_keep[OF rest] by simp
  finally show ?thesis .
qed

lemma ticket_best_entries: "ticket_best txt = fold (select_step txt) ticket_entries (''General'', 0)"
proof -
  have eq: "(\<lambda>(cat, info). select_step txt (cat, info_keywords info))
        = select_step txt \<circ> (\<lambda>(cat, info). (cat, info_keywords info))"
    by (auto simp: fun_eq_iff)
  show ?thesis
    by (simp only: ticket_best_def ticket_entries_def fold_map eq)
qed

lemma hits_zero: "\<forall>k\<in>set kws. \<not> includes_str txt k \<Longrightarrow> hits txt kws = 0"
  by (simp add: hits_def)

lemma map_of_General: "map_of categories ''General'' \<noteq> None"
  by (simp add: categories_def)

lemma distinct_categories: "distinct (map fst categories)"
  by (simp add: categories_def)

lemma map_of_categories_nth:
  "i < length categories \<Longrightarrow> map_of categories (fst (categories ! i)) = Some (snd (categories ! i))"
  using distinct_categories by (simp add: map_of_is_SomeI)

lemma classifyTicket_category:
  assumes "ticket_best (toLowerCase (subj @ '' '' @ descr)) = (c, n)"
    and "map_of categories c = Some info"
  shows "\<exists>t. classifyTicket subj descr rnd = Inr t \<and> category t = c
     \<and> confidence t = ticket_confidence n rnd"
  using assms by (simp add: classifyTicket_def Let_def)

section \<open>Fallback category\<close>

text \<open>
  C1. When the lower-cased text contains no keyword of any category, \<^verbatim>\<open>classifyTicket\<close>
  returns the category \<^verbatim>\<open>General\<close> and \<^verbatim>\<open>categorizeExpense\<close> the category \<^verbatim>\<open>Other\<close>,
  whatever \<^verbatim>\<open>Math.random()\<close> returns.
\<close>

theorem fallback_completeness:
  "((\<forall>(cat, info)\<in>set categories. \<forall>k\<in>set (info_keywords info).
        \<not> includes_str (toLowerCase (subj @ '' '' @ descr)) k)
     \<longrightarrow> (\<exists>t. classifyTicket subj descr rnd = Inr t \<and> category t = ''General''))
   \<and> ((\<forall>(cat, kws)\<in>set categoryKeywords. \<forall>k\<in>set kws.
        \<not> includes_str (toLowerCase d) k)
     \<longrightarrow> category (categorizeExpense d rnd') = ''Other'')"
proof (intro conjI impI)
  let ?txt = "toLowerCase (subj @ '' '' @ descr)"
  assume h: "\<forall>(cat, info)\<in>set categories. \<forall>k\<in>set (info_keywords info). \<not> includes_str ?txt k"
  have "\<forall>e\<in>set ticket_entries. hits ?txt (snd e) \<le> 0"
    using h by (auto simp: ticket_entries_def intro!: hits_zero)
  then have "ticket_best ?txt = (''General'', 0)"
    by (simp only: ticket_best_entries select_keep)
  moreover obtain info where "map_of categories ''General'' = Some info"
    using map_of_General by blast
  ultimately show "\<exists>t. classifyTicket subj descr rnd = Inr t \<and> category t = ''General''"
    using classifyTicket_category by blast
next
  assume h: "\<forall>(cat, kws)\<in>set categoryKeywords. \<forall>k\<in>set kws. \<not> includes_str (toLowerCase d) k"
  have "\<forall>e\<in>set categoryKeywords. hits (toLowerCase d) (snd e) \<le> 0"
    using h by (auto intro!: hits_zero)
  then have "expense_best (toLowerCase d) = (''Other'', 0)"
    by (simp only: expense_best_def select_keep)
  then show "category (categorizeExpense d rnd') = ''Other''"
    by (simp add: categorizeExpense_def)
qed

theorem fallback_completeness_witness:
  "list_all (\<lambda>(cat, info). hits (toLowerCase (''Hello'' @ '' '' @ ''Thanks'')) (info_keywords info) = 0)
     categories
   \<and> (\<exists>t. classifyTicket ''Hello'' ''Thanks'' 0 = Inr t \<and> category t = ''General'')
   \<and> list_all (\<lambda>(cat, kws). hits (toLowerCase ''Misc'') kws = 0) categoryKeywords
   \<and> category (categorizeExpense ''Misc'' 0) = ''Other''"
proof -
  have h1: "\<forall>(cat, info)\<in>set categories. \<forall>k\<in>set (info_keywords info).
        \<not> includes_str (toLowerCase (''Hello'' @ '' '' @ ''Thanks'')) k"
    by code_simp
  have h2: "\<forall>(cat, kws)\<in>set categoryKeywords. \<forall>k\<in>set kws.
        \<not> includes_str (toLowerCase ''Misc'') k"
    by code_simp
  have s1: "list_all (\<lambda>(cat, info). hits (toLowerCase (''Hello'' @ '' '' @ ''Thanks'')) (info_keywords info) = 0)
     categories"
    by code_simp
  have s2: "list_all (\<lambda>(cat, kws). hits (toLowerCase ''Misc'') kws = 0) categoryKeywords"
    by code_simp
  from fallback_completeness[of "''Hello''" "''Thanks''" 0 "''Misc''" 0] h1 h2 s1 s2
  show ?thesis by blast
qed

section \<open>Ties\<close>

lemma ticket_entries_nth:
  "i < length categories \<Longrightarrow>
     ticket_entries ! i = (fst (categories ! i), info_keywords (snd (categories ! i)))"
  by (simp add: ticket_entries_def case_prod_unfold)

text \<open>
  C2. The category returned is the first one, in the order of declaration, that reaches
  the highest score, when that score is positive: of several categories with the same
  highest score the one declared first is returned. The value of \<^verbatim>\<open>Math.random()\<close>
  has no part in it.
\<close>

theorem tie_break_first_declared:
  fixes subj descr d :: string and rnd rnd' :: real
  defines "txt \<equiv> toLowerCase (subj @ '' '' @ descr)"
  shows
  "(i < length categories \<and> 0 < m
      \<and> hits txt (info_keywords (snd (categories ! i))) = m
      \<and> (\<forall>e\<in>set categories. hits txt (info_keywords (snd e)) \<le> m)
      \<and> (\<forall>e\<in>set (take i categories). hits txt (info_keywords (snd e)) < m)
     \<longrightarrow> (\<exists>t. classifyTicket subj descr rnd = Inr t \<and> category t = fst (categories ! i)))
   \<and> (j < length categoryKeywords \<and> 0 < n
      \<and> hits (toLowerCase d) (snd (categoryKeywords ! j)) = n
      \<and> (\<forall>e\<in>set categoryKeywords. hits (toLowerCase d) (snd e) \<le> n)
      \<and> (\<forall>e\<in>set (take j categoryKeywords). hits (toLowerCase d) (snd e) < n)
     \<longrightarrow> category (categorizeExpense d rnd') = fst (categoryKeywords ! j))"
proof (intro conjI impI)
  assume h: "i < length categories \<and> 0 < m
      \<and> hits txt (info_keywords (snd (categories ! i))) = m
      \<and> (\<forall>e\<in>set categories. hits txt (info_keywords (snd e)) \<le> m)
      \<and> (\<forall>e\<in>set (take i categories). hits txt (info_keywords (snd e)) < m)"
  then have i: "i < length ticket_entries"
    by (simp add: ticket_entries_def)
  have at_i: "hits txt (snd (ticket_entries ! i)) = m"
    using h by (simp add: ticket_entries_nth)
  have all: "\<forall>e\<in>set ticket_entries. hits txt (snd e) \<le> m"
    using h by (auto simp: ticket_entries_def)
  have before: "\<forall>e\<in>set (take i ticket_entries). hits txt (snd e) < m"
    using h by (auto simp: ticket_entries_def take_map)
  have "ticket_best txt = (fst (ticket_entries ! i), m)"
    unfolding ticket_best_entries
    using i at_i _ all before by (rule select_first_max) (use h in simp)
  then have "ticket_best txt = (fst (categories ! i), m)"
    using h by (simp add: ticket_entries_nth)
  moreover have "map_of categories (fst (categories ! i)) = Some (snd (categories ! i))"
    using h by (simp add: map_of_categories_nth)
  ultimately show "\<exists>t. classifyTicket subj descr rnd = Inr t \<and> category t = fst (categories ! i)"
    unfolding txt_def using classifyTicket_category by blast
next
  assume h: "j < length categoryKeywords \<and> 0 < n
      \<and> hits (toLowerCase d) (snd (categoryKeywords ! j)) = n
      \<and> (\<forall>e\<in>set categoryKeywords. hits (toLowerCase d) (snd e) \<le> n)
      \<and> (\<forall>e\<in>set (take j categoryKeywords). hits (toLowerCase d) (snd e) < n)"
  have "expense_best (toLowerCase d) = (fst (categoryKeywords ! j), n)"
    unfolding expense_best_def
    by (rule select_first_max) (use h in simp_all)
  then show "category (categorizeExpense d rnd') = fst (categoryKeywords ! j)"
    by (simp add: categorizeExpense_def)
qed

theorem tie_break_first_declared_witness:
  "hits (toLowerCase (''Water'' @ '' '' @ ''no power'')) (info_keywords (snd (categories ! 1))) = 1
   \<and> hits (toLowerCase (''Water'' @ '' '' @ ''no power'')) (info_keywords (snd (categories ! 2))) = 1
   \<and> (\<exists>t. classifyTicket ''Water'' ''no power'' (1 / 2) = Inr t \<and> category t = ''Water Supply'')
   \<and> hits (toLowerCase ''Gas and a book'') (snd (categoryKeywords ! 1)) = 1
   \<and> hits (toLowerCase ''Gas and a book'') (snd (categoryKeywords ! 3)) = 1
   \<and> hits (toLowerCase ''Gas and a book'') (snd (categoryKeywords ! 4)) = 1
   \<and> category (categorizeExpense ''Gas and a book'' (1 / 2)) = ''Transportation''"
proof -
  have t: "1 < length categories \<and> 0 < (1::nat)
      \<and> hits (toLowerCase (''Water'' @ '' '' @ ''no power'')) (info_keywords (snd (categories ! 1))) = 1
      \<and> (\<forall>e\<in>set categories. hits (toLowerCase (''Water'' @ '' '' @ ''no power'')) (info_keywords (snd e)) \<le> 1)
      \<and> (\<forall>e\<in>set (take 1 categories). hits (toLowerCase (''Water'' @ '' '' @ ''no power'')) (info_keywords (snd e)) < 1)"
    by code_simp
  have e: "1 < length categoryKeywords \<and> 0 < (1::nat)
      \<and> hits (toLowerCase ''Gas and a book'') (snd (categoryKeywords ! 1)) = 1
      \<and> (\<forall>e\<in>set categoryKeywords. hits (toLowerCase ''Gas and a book'') (snd e) \<le> 1)
      \<and> (\<forall>e\<in>set (take 1 categoryKeywords). hits (toLowerCase ''Gas and a book'') (snd e) < 1)"
    by code_simp
  have t1: "fst (categories ! 1) = ''Water Supply''" by code_simp
  have e1: "fst (categoryKeywords ! 1) = ''Transportation''" by code_simp
  have more: "hits (toLowerCase (''Water'' @ '' '' @ ''no power'')) (info_keywords (snd (categories ! 2))) = 1
     \<and> hits (toLowerCase ''Gas and a book'') (snd (categoryKeywords ! 3)) = 1
     \<and> hits (toLowerCase ''Gas and a book'') (snd (categoryKeywords ! 4)) = 1"
    by code_simp
  from tie_break_first_declared[of 1 1 "''Water''" "''no power''" "1 / 2" 1 1 "''Gas and a book''" "1 / 2"]
    t e t1 e1 more
  show ?thesis by simp
qed

section \<open>Confidence\<close>

text \<open>
  Rounding to tenths is monotone and leaves whole numbers alone, so a value between two
  whole numbers stays between them.
\<close>

lemma toFixed1_mono: "x \<le> y \<Longrightarrow> toFixed1 x \<le> toFixed1 y"
  unfolding toFixed1_def by (intro divide_right_mono iffD2[OF of_int_le_iff] floor_mono) simp_all

lemma toFixed1_of_int: "toFixed1 (of_int z) = of_int z"
proof -
  have "\<lfloor>(of_int z :: real) * 10 + 1 / 2\<rfloor> = z * 10"
    by (rule floor_unique) simp_all
  then show ?thesis by (simp add: toFixed1_def)
qed

lemma toFixed1_between:
  assumes "of_int lo \<le> x" and "x \<le> of_int hi"
  shows "of_int lo \<le> toFixed1 x \<and> toFixed1 x \<le> of_int hi"
  using toFixed1_mono[OF assms(1)] toFixed1_mono[OF assms(2)] by (simp add: toFixed1_of_int)

lemma ticket_confidence_bounds:
  assumes "0 \<le> rnd"
  shows "60 \<le> ticket_confidence n rnd \<and> ticket_confidence n rnd \<le> 95"
proof -
  have "of_int 60 \<le> min 95 (60 + real n * 12 + rnd * 10)"
    and "min 95 (60 + real n * 12 + rnd * 10) \<le> of_int 95"
    using assms by simp_all
  from toFixed1_between[OF this] show ?thesis
    by (simp add: ticket_confidence_def)
qed

lemma expense_confidence_bounds:
  assumes "0 \<le> rnd"
  shows "50 \<le> expense_confidence n rnd \<and> expense_confidence n rnd \<le> 95"
proof -
  have "of_int 50 \<le> min 95 (50 + real n * 15 + rnd * 10)"
    and "min 95 (50 + real n * 15 + rnd * 10) \<le> of_int 95"
    using assms by simp_all
  from toFixed1_between[OF this] show ?thesis
    by (simp add: expense_confidence_def)
qed

lemma analyzeText_score_bounds:
  "5 \<le> analyzeText_score score0 rnd \<and> analyzeText_score score0 rnd \<le> 98"
proof -
  have "of_int 5 \<le> max 5 (min 98 (score0 + (rnd * 10 - 5)))"
    and "max 5 (min 98 (score0 + (rnd * 10 - 5))) \<le> of_int 98"
    by simp_all
  from toFixed1_between[OF this] show ?thesis
    by (simp add: analyzeText_score_def)
qed

lemma ticket_confidence_mono: "m \<le> n \<Longrightarrow> ticket_confidence m rnd \<le> ticket_confidence n rnd"
  unfolding ticket_confidence_def by (rule toFixed1_mono) (simp add: min_le_iff_disj)

lemma expense_confidence_mono: "m \<le> n \<Longrightarrow> expense_confidence m rnd \<le> expense_confidence n rnd"
  unfolding expense_confidence_def by (rule toFixed1_mono) (simp add: min_le_iff_disj)

lemma select_fst:
  "fst (fold (select_step txt) es (b, s)) \<in> insert b (fst ` set es)"
proof (induction es arbitrary: b s)
  case Nil
  show ?case by simp
next
  case (Cons e es)
  obtain c kws where e: "e = (c, kws)" by (cases e)
  show ?case
  proof (cases "hits txt kws > s")
    case True
    with Cons[of c "hits txt kws"] show ?thesis by (auto simp: e)
  next
    case False
    with Cons[of b s] show ?thesis by (auto simp: e)
  qed
qed

lemma ticket_best_key: "map_of categories (fst (ticket_best txt)) \<noteq> None"
proof -
  have "fst (ticket_best txt) \<in> insert ''General'' (fst ` set ticket_entries)"
    unfolding ticket_best_entries by (rule select_fst)
  also have "insert ''General'' (fst ` set ticket_entries) = fst ` set categories"
    by (auto simp: ticket_entries_def categories_def)
  finally show ?thesis
    by (simp add: map_of_eq_None_iff)
qed

lemma classifyTicket_returns:
  "\<exists>t. classifyTicket subj descr rnd = Inr t
     \<and> category t = fst (ticket_best (toLowerCase (subj @ '' '' @ descr)))
     \<and> confidence t = ticket_confidence (snd (ticket_best (toLowerCase (subj @ '' '' @ descr)))) rnd"
proof -
  let ?txt = "toLowerCase (subj @ '' '' @ descr)"
  obtain info where "map_of categories (fst (ticket_best ?txt)) = Some info"
    using ticket_best_key by blast
  moreover have "ticket_best ?txt = (fst (ticket_best ?txt), snd (ticket_best ?txt))"
    by simp
  ultimately show ?thesis
    by (rule classifyTicket_category[rotated])
qed

lemma categorizeExpense_fields:
  "category (categorizeExpense d rnd) = fst (expense_best (toLowerCase d))"
  "confidence (categorizeExpense d rnd) = expense_confidence (snd (expense_best (toLowerCase d))) rnd"
  by (simp_all add: categorizeExpense_def case_prod_unfold Let_def)

text \<open>
  C6. For every text and every value of \<^verbatim>\<open>Math.random()\<close> (from 0 up to 1), the
  confidence of \<^verbatim>\<open>classifyTicket\<close> lies between 60 and 95, that of \<^verbatim>\<open>categorizeExpense\<close>
  between 50 and 95, and the score of \<^verbatim>\<open>analyzeText\<close> between 5 and 98. With the random
  value fixed, a text whose winning keyword count is not smaller gets a confidence that is
  not smaller, in both classifiers.
\<close>

theorem confidence_bounds_monotone:
  "(0 \<le> rnd \<and> rnd < 1 \<longrightarrow>
      (\<exists>t. classifyTicket subj descr rnd = Inr t \<and> 60 \<le> confidence t \<and> confidence t \<le> 95)
      \<and> 50 \<le> confidence (categorizeExpense d rnd) \<and> confidence (categorizeExpense d rnd) \<le> 95
      \<and> 5 \<le> analyzeText_score score0 rnd \<and> analyzeText_score score0 rnd \<le> 98)
   \<and> (snd (ticket_best (toLowerCase (subj @ '' '' @ descr)))
        \<le> snd (ticket_best (toLowerCase (subj' @ '' '' @ descr'))) \<longrightarrow>
      (\<exists>t t'. classifyTicket subj descr rnd = Inr t \<and> classifyTicket subj' descr' rnd = Inr t'
         \<and> confidence t \<le> confidence t'))
   \<and> (snd (expense_best (toLowerCase d)) \<le> snd (expense_best (toLowerCase d')) \<longrightarrow>
      confidence (categorizeExpense d rnd) \<le> confidence (categorizeExpense d' rnd))"
proof (intro conjI impI)
  assume r: "0 \<le> rnd \<and> rnd < 1"
  obtain t where t: "classifyTicket subj descr rnd = Inr t"
    "confidence t = ticket_confidence (snd (ticket_best (toLowerCase (subj @ '' '' @ descr)))) rnd"
    using classifyTicket_returns by blast
  with r show "\<exists>t. classifyTicket subj descr rnd = Inr t \<and> 60 \<le> confidence t \<and> confidence t \<le> 95"
    by (simp add: ticket_confidence_bounds)
  from r show "50 \<le> confidence (categorizeExpense d rnd)"
    and "confidence (categorizeExpense d rnd) \<le> 95"
    by (simp_all add: categorizeExpense_fields expense_confidence_bounds)
  show "5 \<le> analyzeText_score score0 rnd" and "analyzeText_score score0 rnd \<le> 98"
    by (simp_all add: analyzeText_score_bounds)
next
  assume le: "snd (ticket_best (toLowerCase (subj @ '' '' @ descr)))
        \<le> snd (ticket_best (toLowerCase (subj' @ '' '' @ descr')))"
  obtain t where t: "classifyTicket subj descr rnd = Inr t"
    "confidence t = ticket_confidence (snd (ticket_best (toLowerCase (subj @ '' '' @ descr)))) rnd"
    using classifyTicket_returns by blast
  obtain t' where t': "classifyTicket subj' descr' rnd = Inr t'"
    "confidence t' = ticket_confidence (snd (ticket_best (toLowerCase (subj' @ '' '' @ descr')))) rnd"
    using classifyTicket_returns by blast
  from le have "confidence t \<le> confidence t'"
    unfolding t t' by (rule ticket_confidence_mono)
  with t t' show "\<exists>t t'. classifyTicket subj descr rnd = Inr t \<and> classifyTicket subj' descr' rnd = Inr t'
         \<and> confidence t \<le> confidence t'"
    by blast
next
  assume "snd (expense_best (toLowerCase d)) \<le> snd (expense_best (toLowerCase d'))"
  then show "confidence (categorizeExpense d rnd) \<le> confidence (categorizeExpense d' rnd)"
    unfolding categorizeExpense_fields by (rule expense_confidence_mono)
qed

theorem confidence_bounds_monotone_witness:
  "0 \<le> (1 / 4 :: real) \<and> (1 / 4 :: real) < 1
   \<and> (\<exists>t. classifyTicket ''Thanks'' ''ok'' (1 / 4) = Inr t \<and> 60 \<le> confidence t \<and> confidence t \<le> 95)
   \<and> 50 \<le> confidence (categorizeExpense ''misc'' (1 / 4))
   \<and> confidence (categorizeExpense ''misc'' (1 / 4)) \<le> 95
   \<and> 5 \<le> analyzeText_score 70 (1 / 4) \<and> analyzeText_score 70 (1 / 4) \<le> 98
   \<and> snd (ticket_best (toLowerCase (''Thanks'' @ '' '' @ ''ok''))) = 0
   \<and> snd (ticket_best (toLowerCase (''Road'' @ '' '' @ ''pothole''))) = 2
   \<and> (\<exists>t t'. classifyTicket ''Thanks'' ''ok'' (1 / 4) = Inr t
         \<and> classifyTicket ''Road'' ''pothole'' (1 / 4) = Inr t' \<and> confidence t \<le> confidence t')
   \<and> snd (expense_best (toLowerCase ''misc'')) = 0
   \<and> snd (expense_best (toLowerCase ''pizza'')) = 1
   \<and> confidence (categorizeExpense ''misc'' (1 / 4)) \<le> confidence (categorizeExpense ''pizza'' (1 / 4))"
proof -
  have r: "0 \<le> (1 / 4 :: real) \<and> (1 / 4 :: real) < 1" by simp
  have t0: "snd (ticket_best (toLowerCase (''Thanks'' @ '' '' @ ''ok''))) = 0" by code_simp
  have t2: "snd (ticket_best (toLowerCase (''Road'' @ '' '' @ ''pothole''))) = 2" by code_simp
  have e0: "snd (expense_best (toLowerCase ''misc'')) = 0" by code_simp
  have e1: "snd (expense_best (toLowerCase ''pizza'')) = 1" by code_simp
  from confidence_bounds_monotone[of "1 / 4" "''Thanks''" "''ok''" "''misc''" 70
      "''Road''" "''pothole''" "''pizza''"] r t0 t2 e0 e1
  show ?thesis by simp
qed

section \<open>What the random value reaches\<close>

text \<open>
  C10. Two calls of \<^verbatim>\<open>classifyTicket\<close> on the same subject and description, whatever
  \<^verbatim>\<open>Math.random()\<close> returns in each, both return a result, with the same category,
  priority, department, sentiment and estimated response: the second result is the first
  with its confidence replaced. The same holds for the category of \<^verbatim>\<open>categorizeExpense\<close>.
\<close>

theorem jitter_only_in_confidence:
  "(\<exists>t1 t2. classifyTicket subj descr rnd1 = Inr t1 \<and> classifyTicket subj descr rnd2 = Inr t2
      \<and> category t1 = category t2 \<and> priority t1 = priority t2
      \<and> department t1 = department t2 \<and> sentiment t1 = sentiment t2
      \<and> estimated_response t1 = estimated_response t2
      \<and> t2 = t1\<lparr>confidence := confidence t2\<rparr>)
   \<and> category (categorizeExpense d rnd1) = category (categorizeExpense d rnd2)
   \<and> categorizeExpense d rnd2
       = (categorizeExpense d rnd1)\<lparr>confidence := confidence (categorizeExpense d rnd2)\<rparr>"
proof (intro conjI)
  let ?txt = "toLowerCase (subj @ '' '' @ descr)"
  obtain info where info: "map_of categories (fst (ticket_best ?txt)) = Some info"
    using ticket_best_key by blast
  obtain c n where best: "ticket_best ?txt = (c, n)"
    by (cases "ticket_best ?txt")
  with info have "map_of categories c = Some info" by simp
  with best show "\<exists>t1 t2. classifyTicket subj descr rnd1 = Inr t1 \<and> classifyTicket subj descr rnd2 = Inr t2
      \<and> category t1 = category t2 \<and> priority t1 = priority t2
      \<and> department t1 = department t2 \<and> sentiment t1 = sentiment t2
      \<and> estimated_response t1 = estimated_response t2
      \<and> t2 = t1\<lparr>confidence := confidence t2\<rparr>"
    by (simp add: classifyTicket_def Let_def)
next
  show "category (categorizeExpense d rnd1) = category (categorizeExpense d rnd2)"
    by (simp add: categorizeExpense_fields)
  show "categorizeExpense d rnd2
       = (categorizeExpense d rnd1)\<lparr>confidence := confidence (categorizeExpense d rnd2)\<rparr>"
    by (simp add: categorizeExpense_def Let_def case_prod_unfold)
qed

section \<open>The \<^verbatim>\<open>anomalies\<close> memo\<close>

text \<open>
  After the first loop \<^verbatim>\<open>categoryStats[c]\<close> holds the amounts of the category \<^verbatim>\<open>c\<close> in
  the order of the batch, and the loop throws exactly when a category is a name that
  \<^verbatim>\<open>{}\<close> inherits. So the memo of the model is the batch filtered by the test \<open>exceeds\<close>
  on the group of each entry.
\<close>

lemma stats_step_lookup:
  assumes "stats_step e st0 = Inr st"
  shows "st c = (if category e = c
                 then Some ((case st0 c of None \<Rightarrow> [] | Some xs \<Rightarrow> xs) @ [amount e])
                 else st0 c)"
  using assms by (auto simp: stats_step_def split: option.splits if_splits)

lemma build_stats_lookup:
  assumes "build_stats rs st0 = Inr st"
  shows "st c = (case st0 c of
                   Some xs \<Rightarrow> Some (xs @ group_of c rs)
                 | None \<Rightarrow> if group_of c rs = [] then None else Some (group_of c rs))"
  using assms
proof (induction rs arbitrary: st0)
  case Nil
  then show ?case by (auto simp: group_of_def split: option.splits)
next
  case (Cons e es)
  from Cons.prems obtain st1 where step: "stats_step e st0 = Inr st1"
    and rest: "build_stats es st1 = Inr st"
    by (auto split: sum.splits)
  show ?case
    unfolding Cons.IH[OF rest] stats_step_lookup[OF step]
    by (auto simp: group_of_def split: option.splits)
qed

lemma build_stats_throws:
  "(\<exists>st. build_stats rs st0 = Inr st)
   \<longleftrightarrow> (\<forall>e\<in>set rs. category e \<in> set object_prototype_keys \<longrightarrow> category e \<in> dom st0)"
proof (induction rs arbitrary: st0)
  case Nil
  show ?case by simp
next
  case (Cons e es)
  show ?case
  proof (cases "stats_step e st0")
    case (Inl err)
    then show ?thesis
      by (auto simp: stats_step_def split: option.splits if_splits)
  next
    case (Inr st1)
    have dom: "dom st1 = insert (category e) (dom st0)"
      using Inr by (auto simp: stats_step_def split: option.splits if_splits)
    have ok: "category e \<in> set object_prototype_keys \<longrightarrow> category e \<in> dom st0"
      using Inr by (auto simp: stats_step_def split: option.splits if_splits)
    show ?thesis
      using ok by (auto simp: Inr Cons.IH dom)
  qed
qed

lemma filter_js_total:
  assumes "\<forall>x\<in>set xs. f x = Inr (P x)"
  shows "filter_js f xs = Inr (filter P xs)"
  using assms by (induction xs) auto

lemma anomalies_eq:
  "anomalies rs =
     (if \<exists>e\<in>set rs. category e \<in> set object_prototype_keys then Inl TypeError
      else Inr (filter (\<lambda>e. exceeds (group_of (category e) rs) (amount e)) rs))"
proof (cases "\<exists>e\<in>set rs. category e \<in> set object_prototype_keys")
  case True
  then have "\<not> (\<exists>st. build_stats rs Map.empty = Inr st)"
    unfolding build_stats_throws by simp
  then obtain err where "build_stats rs Map.empty = Inl err"
    by (cases "build_stats rs Map.empty") auto
  moreover have "err = TypeError" by (cases err)
  ultimately show ?thesis using True
    by (simp add: anomalies_def)
next
  case False
  then obtain st where st: "build_stats rs Map.empty = Inr st"
    using build_stats_throws[of rs Map.empty] by auto
  have "\<forall>e\<in>set rs. is_anomaly st e = Inr (exceeds (group_of (category e) rs) (amount e))"
  proof
    fix e assume e: "e \<in> set rs"
    then have "amount e \<in> set (group_of (category e) rs)"
      by (auto simp: group_of_def)
    then have "group_of (category e) rs \<noteq> []" by auto
    then have "st (category e) = Some (group_of (category e) rs)"
      using build_stats_lookup[OF st, of "category e"] by simp
    then show "is_anomaly st e = Inr (exceeds (group_of (category e) rs) (amount e))"
      by (auto simp: is_anomaly_def exceeds_def Let_def)
  qed
  from filter_js_total[OF this] st False show ?thesis
    by (simp add: anomalies_def)
qed

lemma anomalies_Inr:
  assumes "anomalies rs = Inr out"
  shows "out = filter (\<lambda>e. exceeds (group_of (category e) rs) (amount e)) rs"
  using assms by (simp add: anomalies_eq split: if_splits)

text \<open>
  The loop does throw on a category that \<^verbatim>\<open>{}\<close> inherits; no such category comes out
  of \<^verbatim>\<open>categorizeExpense\<close> (see \<open>expense_category_own\<close> below).
\<close>

lemma inherited_category_throws:
  "anomalies [\<lparr>category = ''constructor'', confidence = 50, description = ''x'', amount = 1,
      date = ''2/1/2026''\<rparr>] = Inl TypeError"
  by (simp add: anomalies_eq object_prototype_keys_def)

lemma foldl_plus: "foldl (\<lambda>s v. s + f v) a xs = a + sum_list (map f xs)" for a :: real
  by (induction xs arbitrary: a) simp_all

lemma mean_of_sum: "mean_of xs = sum_list xs / real (length xs)"
  using foldl_plus[of "\<lambda>v. v" 0 xs] by (simp add: mean_of_def)

lemma std_of_sum:
  "std_of xs = sqrt (sum_list (map (\<lambda>v. (v - mean_of xs) ^ 2) xs) / real (length xs))"
  using foldl_plus[of "\<lambda>v. (v - mean_of xs) ^ 2" 0 xs] by (simp add: std_of_def)

lemma exceeds_iff:
  "exceeds xs v \<longleftrightarrow>
     2 \<le> length xs
     \<and> 0 < sum_list (map (\<lambda>u. (u - mean_of xs) ^ 2) xs) / real (length xs)
     \<and> 4 * (sum_list (map (\<lambda>u. (u - mean_of xs) ^ 2) xs) / real (length xs))
         < (v - mean_of xs) ^ 2"
proof -
  let ?var = "sum_list (map (\<lambda>u. (u - mean_of xs) ^ 2) xs) / real (length xs)"
  have "sqrt (2 ^ 2 * ?var) = sqrt (2 ^ 2) * sqrt ?var"
    by (rule real_sqrt_mult)
  also have "sqrt (2 ^ 2) = (2 :: real)"
    by (subst real_sqrt_abs) simp
  finally have "2 * sqrt ?var = sqrt (4 * ?var)"
    by simp
  moreover have "\<bar>v - mean_of xs\<bar> = sqrt ((v - mean_of xs) ^ 2)"
    by simp
  ultimately have "2 * sqrt ?var < \<bar>v - mean_of xs\<bar> \<longleftrightarrow> 4 * ?var < (v - mean_of xs) ^ 2"
    by (simp only: real_sqrt_less_iff)
  then show ?thesis
    by (simp add: exceeds_def std_of_sum)
qed

lemma all_equal_std:
  assumes "\<forall>v\<in>set xs. v = a"
  shows "std_of xs = 0"
proof (cases "xs = []")
  case True
  then show ?thesis by (simp add: std_of_def)
next
  case False
  have sum: "sum_list xs = real (length xs) * a"
    using assms by (induction xs) (simp_all add: algebra_simps)
  have mean: "mean_of xs = a"
    using False by (simp add: mean_of_sum sum)
  have "sum_list (map (\<lambda>v. (v - a) ^ 2) xs) = 0"
    using assms by (induction xs) simp_all
  then show ?thesis by (simp add: std_of_sum mean)
qed

lemma sample_best:
  "expense_best (toLowerCase ''Coffee'') = (''Food & Dining'', 1)"
  "expense_best (toLowerCase ''Rent'') = (''Rent & Housing'', 1)"
  "expense_best (toLowerCase ''Taxi'') = (''Transportation'', 1)"
  "expense_best (toLowerCase ''Food court'') = (''Food & Dining'', 1)"
  by code_simp+

lemma confidence_values:
  "expense_confidence 1 0 = 65" "expense_confidence 1 (1 / 2) = 70"
  "expense_confidence (Suc 0) 0 = 65" "expense_confidence (Suc 0) (1 / 2) = 70"
  by code_simp+

lemma zero_jitter_const: "zero_jitter = (\<lambda>i. 0)"
  by (simp add: fun_eq_iff zero_jitter_def)

lemma sample_categorized_const:
  "categorized sample_expenses (\<lambda>i. c) =
    [\<lparr>category = ''Food & Dining'', confidence = expense_confidence 1 c, description = ''Coffee'', amount = 10, date = ''2/1/2026''\<rparr>,
     \<lparr>category = ''Food & Dining'', confidence = expense_confidence 1 c, description = ''Coffee'', amount = 10, date = ''2/2/2026''\<rparr>,
     \<lparr>category = ''Food & Dining'', confidence = expense_confidence 1 c, description = ''Coffee'', amount = 10, date = ''2/3/2026''\<rparr>,
     \<lparr>category = ''Rent & Housing'', confidence = expense_confidence 1 c, description = ''Rent'', amount = 1000000, date = ''2/3/2026''\<rparr>,
     \<lparr>category = ''Food & Dining'', confidence = expense_confidence 1 c, description = ''Coffee'', amount = 10, date = ''2/4/2026''\<rparr>,
     \<lparr>category = ''Transportation'', confidence = expense_confidence 1 c, description = ''Taxi'', amount = 50, date = ''2/4/2026''\<rparr>,
     \<lparr>category = ''Food & Dining'', confidence = expense_confidence 1 c, description = ''Coffee'', amount = 10, date = ''2/5/2026''\<rparr>,
     \<lparr>category = ''Food & Dining'', confidence = expense_confidence 1 c, description = ''Coffee'', amount = 100, date = ''2/6/2026''\<rparr>,
     \<lparr>category = ''Transportation'', confidence = expense_confidence 1 c, description = ''Taxi'', amount = 50, date = ''2/7/2026''\<rparr>]"
  by (simp add: categorized_def sample_expenses_def categorizeExpense_def sample_best)

lemma sample_categorized:
  "categorized sample_expenses zero_jitter =
    [\<lparr>category = ''Food & Dining'', confidence = 65, description = ''Coffee'', amount = 10, date = ''2/1/2026''\<rparr>,
     \<lparr>category = ''Food & Dining'', confidence = 65, description = ''Coffee'', amount = 10, date = ''2/2/2026''\<rparr>,
     \<lparr>category = ''Food & Dining'', confidence = 65, description = ''Coffee'', amount = 10, date = ''2/3/2026''\<rparr>,
     \<lparr>category = ''Rent & Housing'', confidence = 65, description = ''Rent'', amount = 1000000, date = ''2/3/2026''\<rparr>,
     \<lparr>category = ''Food & Dining'', confidence = 65, description = ''Coffee'', amount = 10, date = ''2/4/2026''\<rparr>,
     \<lparr>category = ''Transportation'', confidence = 65, description = ''Taxi'', amount = 50, date = ''2/4/2026''\<rparr>,
     \<lparr>category = ''Food & Dining'', confidence = 65, description = ''Coffee'', amount = 10, date = ''2/5/2026''\<rparr>,
     \<lparr>category = ''Food & Dining'', confidence = 65, description = ''Coffee'', amount = 100, date = ''2/6/2026''\<rparr>,
     \<lparr>category = ''Transportation'', confidence = 65, description = ''Taxi'', amount = 50, date = ''2/7/2026''\<rparr>]"
  by (simp only: zero_jitter_const sample_categorized_const confidence_values)

lemma sample_groups:
  "exceeds [10, 10, 10, 10, 10, 100] v \<longleftrightarrow> 4500 < (v - 25) ^ 2"
  "\<not> exceeds [1000000] v"
  "\<not> exceeds [50, 50] v"
  by (simp_all add: exceeds_iff mean_of_sum)

lemma sample_anomalies:
  "anomalies (categorized sample_expenses zero_jitter)
     = Inr [categorized sample_expenses zero_jitter ! 7]"
  unfolding sample_categorized
  by (simp add: anomalies_eq group_of_def object_prototype_keys_def sample_groups)

section \<open>Shape of the result\<close>

text \<open>
  C3, as stated, fails: for a batch of one entry the memo is the empty array, not an array
  of one flag.
\<close>

theorem same_length_counterexample:
  "anomalies (categorized [\<lparr>raw_description = ''Rent'', raw_amount = 500, raw_date = ''2/3/2026''\<rparr>] zero_jitter) = Inr []
   \<and> length (categorized [\<lparr>raw_description = ''Rent'', raw_amount = 500, raw_date = ''2/3/2026''\<rparr>] zero_jitter) = 1"
proof -
  have c: "categorized [\<lparr>raw_description = ''Rent'', raw_amount = 500, raw_date = ''2/3/2026''\<rparr>] zero_jitter
      = [\<lparr>category = ''Rent & Housing'', confidence = 65, description = ''Rent'', amount = 500,
           date = ''2/3/2026''\<rparr>]"
    by (simp add: categorized_def categorizeExpense_def sample_best zero_jitter_def
        confidence_values)
  show ?thesis
    unfolding c
    by (simp add: anomalies_def stats_step_def is_anomaly_def object_prototype_keys_def)
qed

text \<open>
  C3, amended. The memo is the batch filtered by a test on the category and the amount
  of each entry: it holds the entries that the test keeps and no flag for the others, in
  the order of the batch. So it is a subsequence of the batch, at most as long as the
  batch, and it can be shorter.
\<close>

theorem anomalies_flagged_subsequence:
  assumes "anomalies rs = Inr out"
  shows "subseq out rs \<and> length out \<le> length rs
     \<and> (\<exists>keep. out = filter (\<lambda>e. keep (category e) (amount e)) rs)"
proof -
  have "out = filter (\<lambda>e. exceeds (group_of (category e) rs) (amount e)) rs"
    by (rule anomalies_Inr[OF assms])
  then have "\<exists>keep. out = filter (\<lambda>e. keep (category e) (amount e)) rs"
    by (rule exI[where x = "\<lambda>c v. exceeds (group_of c rs) v"])
  moreover have "subseq out rs \<and> length out \<le> length rs"
    using anomalies_Inr[OF assms] by simp
  ultimately show ?thesis by simp
qed

theorem anomalies_flagged_subsequence_witness:
  "anomalies (categorized sample_expenses zero_jitter) = Inr [categorized sample_expenses zero_jitter ! 7]
   \<and> subseq [categorized sample_expenses zero_jitter ! 7] (categorized sample_expenses zero_jitter)
   \<and> length [categorized sample_expenses zero_jitter ! 7] \<le> length (categorized sample_expenses zero_jitter)
   \<and> (\<exists>keep. [categorized sample_expenses zero_jitter ! 7]
         = filter (\<lambda>e. keep (category e) (amount e)) (categorized sample_expenses zero_jitter))"
proof -
  have a: "anomalies (categorized sample_expenses zero_jitter)
      = Inr [categorized sample_expenses zero_jitter ! 7]"
    by (rule sample_anomalies)
  from anomalies_flagged_subsequence[OF a] a show ?thesis by simp
qed

section \<open>Guards\<close>

text \<open>
  C4. An entry whose category fewer than two entries of the batch have is not in the
  memo, whatever its amount.
\<close>

theorem group_size_guard:
  assumes "anomalies rs = Inr out"
    and "length (filter (\<lambda>x. category x = category e) rs) < 2"
  shows "e \<notin> set out"
proof
  assume "e \<in> set out"
  then have "exceeds (group_of (category e) rs) (amount e)"
    unfolding anomalies_Inr[OF assms(1)] by simp
  then have "2 \<le> length (group_of (category e) rs)"
    by (simp add: exceeds_def)
  with assms(2) show False by (simp add: group_of_def)
qed

theorem group_size_guard_witness:
  "anomalies (categorized sample_expenses zero_jitter) = Inr [categorized sample_expenses zero_jitter ! 7]
   \<and> amount (categorized sample_expenses zero_jitter ! 3) = 1000000
   \<and> length (filter (\<lambda>x. category x = category (categorized sample_expenses zero_jitter ! 3))
        (categorized sample_expenses zero_jitter)) = 1
   \<and> categorized sample_expenses zero_jitter ! 3 \<notin> set [categorized sample_expenses zero_jitter ! 7]"
proof -
  have a: "anomalies (categorized sample_expenses zero_jitter)
      = Inr [categorized sample_expenses zero_jitter ! 7]"
    by (rule sample_anomalies)
  have n: "length (filter (\<lambda>x. category x = category (categorized sample_expenses zero_jitter ! 3))
        (categorized sample_expenses zero_jitter)) = 1"
    by (simp add: sample_categorized)
  have v: "amount (categorized sample_expenses zero_jitter ! 3) = 1000000"
    by (simp add: sample_categorized)
  from group_size_guard[OF a, of "categorized sample_expenses zero_jitter ! 3"] a n v
  show ?thesis by simp
qed

text \<open>
  C5. An entry whose group has the standard deviation 0 is not in the memo; and a group
  whose amounts are all equal has the standard deviation 0.
\<close>

theorem zero_spread_guard:
  assumes "anomalies rs = Inr out"
  shows "(std_of (group_of (category e) rs) = 0 \<longrightarrow> e \<notin> set out)
     \<and> ((\<forall>x\<in>set rs. category x = category e \<longrightarrow> amount x = a)
          \<longrightarrow> std_of (group_of (category e) rs) = 0 \<and> e \<notin> set out)"
proof -
  have zero: "e \<notin> set out" if "std_of (group_of (category e) rs) = 0"
  proof
    assume "e \<in> set out"
    then have "exceeds (group_of (category e) rs) (amount e)"
      unfolding anomalies_Inr[OF assms] by simp
    with that show False by (simp add: exceeds_def)
  qed
  have flat: "std_of (group_of (category e) rs) = 0"
    if "\<forall>x\<in>set rs. category x = category e \<longrightarrow> amount x = a"
  proof (rule all_equal_std)
    show "\<forall>v\<in>set (group_of (category e) rs). v = a"
      using that by (auto simp: group_of_def)
  qed
  from zero flat show ?thesis by blast
qed

theorem zero_spread_guard_witness:
  "anomalies (categorized sample_expenses zero_jitter) = Inr [categorized sample_expenses zero_jitter ! 7]
   \<and> group_of (category (categorized sample_expenses zero_jitter ! 5)) (categorized sample_expenses zero_jitter)
       = [50, 50]
   \<and> std_of (group_of (category (categorized sample_expenses zero_jitter ! 5))
        (categorized sample_expenses zero_jitter)) = 0
   \<and> categorized sample_expenses zero_jitter ! 5 \<notin> set [categorized sample_expenses zero_jitter ! 7]"
proof -
  have a: "anomalies (categorized sample_expenses zero_jitter)
      = Inr [categorized sample_expenses zero_jitter ! 7]"
    by (rule sample_anomalies)
  have g: "group_of (category (categorized sample_expenses zero_jitter ! 5)) (categorized sample_expenses zero_jitter)
       = [50, 50]"
    by (simp add: sample_categorized group_of_def)
  have flat: "\<forall>x\<in>set (categorized sample_expenses zero_jitter).
      category x = category (categorized sample_expenses zero_jitter ! 5) \<longrightarrow> amount x = 50"
    by (simp add: sample_categorized)
  from zero_spread_guard[OF a, of "categorized sample_expenses zero_jitter ! 5" 50] a g flat
  show ?thesis by simp
qed

section \<open>The threshold on the specification's example\<close>








section \<open>Recomputing the memo\<close>

text \<open>
  The memo reads the category and the amount of each entry and nothing else, so it is
  determined by the list of these pairs.
\<close>

lemma group_of_keys:
  "group_of c rs = map snd (filter (\<lambda>p. fst p = c) (map record_key rs))"
  by (induction rs) (simp_all add: group_of_def record_key_def)

lemma anomalies_keys:
  "map_sum id (map record_key) (anomalies rs) =
     (if \<exists>p\<in>set (map record_key rs). fst p \<in> set object_prototype_keys then Inl TypeError
      else Inr (filter (\<lambda>p. exceeds (map snd (filter (\<lambda>q. fst q = fst p) (map record_key rs))) (snd p))
                  (map record_key rs)))"
proof -
  have "map record_key (filter (\<lambda>e. exceeds (group_of (category e) rs) (amount e)) rs)
      = filter (\<lambda>p. exceeds (map snd (filter (\<lambda>q. fst q = fst p) (map record_key rs))) (snd p))
          (map record_key rs)"
    by (simp add: filter_map o_def group_of_keys) (simp add: record_key_def)
  moreover have "(\<exists>e\<in>set rs. category e \<in> set object_prototype_keys)
      \<longleftrightarrow> (\<exists>p\<in>set (map record_key rs). fst p \<in> set object_prototype_keys)"
    by (simp add: record_key_def)
  ultimately show ?thesis
    by (simp only: anomalies_eq map_sum.simps if_distrib[of "map_sum id (map record_key)"] id_apply)
qed

lemma categorized_keys:
  "map record_key (categorized es rnd)
     = map (\<lambda>e. (fst (expense_best (toLowerCase (raw_description e))), raw_amount e)) es"
proof -
  have "map record_key (categorized es rnd)
      = map ((\<lambda>e. (fst (expense_best (toLowerCase (raw_description e))), raw_amount e)) \<circ> snd)
          (enumerate 0 es)"
    by (simp add: categorized_def record_key_def case_prod_unfold Let_def categorizeExpense_fields o_def)
  also have "\<dots> = map (\<lambda>e. (fst (expense_best (toLowerCase (raw_description e))), raw_amount e)) es"
    by (simp only: map_map[symmetric] map_snd_enumerate)
  finally show ?thesis .
qed

text \<open>
  C8. Computing the memo again on the same batch gives the same flags: two batches with
  the same categories and amounts, entry by entry, either both throw or have flagged
  entries with the same categories and amounts, in the same order. In particular the memo
  of \<^verbatim>\<open>categorized\<close> does not depend on what \<^verbatim>\<open>Math.random()\<close> returned while the
  entries were categorized.
\<close>

theorem flagging_idempotent:
  "(map record_key rs = map record_key rs'
      \<longrightarrow> map_sum id (map record_key) (anomalies rs) = map_sum id (map record_key) (anomalies rs'))
   \<and> map_sum id (map record_key) (anomalies (categorized es rnd))
       = map_sum id (map record_key) (anomalies (categorized es rnd'))"
proof (intro conjI impI)
  assume "map record_key rs = map record_key rs'"
  then show "map_sum id (map record_key) (anomalies rs) = map_sum id (map record_key) (anomalies rs')"
    by (simp only: anomalies_keys)
next
  have "map record_key (categorized es rnd) = map record_key (categorized es rnd')"
    by (simp only: categorized_keys)
  then show "map_sum id (map record_key) (anomalies (categorized es rnd))
       = map_sum id (map record_key) (anomalies (categorized es rnd'))"
    by (simp only: anomalies_keys)
qed

theorem flagging_idempotent_witness:
  "map record_key (categorized sample_expenses zero_jitter)
     = map record_key (categorized sample_expenses (\<lambda>i. 1 / 2))
   \<and> categorized sample_expenses zero_jitter \<noteq> categorized sample_expenses (\<lambda>i. 1 / 2)
   \<and> map_sum id (map record_key) (anomalies (categorized sample_expenses zero_jitter))
       = map_sum id (map record_key) (anomalies (categorized sample_expenses (\<lambda>i. 1 / 2)))"
proof -
  have k: "map record_key (categorized sample_expenses zero_jitter)
     = map record_key (categorized sample_expenses (\<lambda>i. 1 / 2))"
    by (simp add: sample_categorized sample_categorized_const record_key_def)
  have d: "categorized sample_expenses zero_jitter \<noteq> categorized sample_expenses (\<lambda>i. 1 / 2)"
    by (simp add: sample_categorized sample_categorized_const confidence_values)
  from flagging_idempotent[of "categorized sample_expenses zero_jitter"
      "categorized sample_expenses (\<lambda>i. 1 / 2)"] k d
  show ?thesis by simp
qed

section \<open>No runtime error\<close>

text \<open>
  A keyword that occurs in a text has all its code units in the text, and every keyword
  has a code unit that is no white space: a text of white space scores 0 everywhere.
  The categories that \<^verbatim>\<open>categorizeExpense\<close> returns are keys of \<^verbatim>\<open>categoryKeywords\<close> or
  \<^verbatim>\<open>Other\<close>, none of them a name that \<^verbatim>\<open>{}\<close> inherits.
\<close>

lemma starts_with_set: "starts_with s k \<Longrightarrow> set k \<subseteq> set s"
  by (induction s k rule: starts_with.induct) auto

lemma includes_str_set: "includes_str s k \<Longrightarrow> set k \<subseteq> set s"
proof (induction s)
  case Nil
  then show ?case using starts_with_set[of "[]" k] by simp
next
  case (Cons c cs)
  from Cons.prems have "starts_with (c # cs) k \<or> includes_str cs k" by simp
  then show ?case
  proof
    assume "starts_with (c # cs) k"
    then show ?thesis by (rule starts_with_set)
  next
    assume "includes_str cs k"
    then have "set k \<subseteq> set cs" by (rule Cons.IH)
    then show ?thesis by auto
  qed
qed

lemma lower_char_whitespace: "c \<in> set whitespace \<Longrightarrow> lower_char c = c"
  by (auto simp: whitespace_def lower_char_def)

lemma toLowerCase_whitespace:
  assumes "set s \<subseteq> set whitespace"
  shows "set (toLowerCase s) \<subseteq> set whitespace"
  using assms by (auto simp: toLowerCase_def lower_char_whitespace)

lemma ticket_keywords_not_blank:
  "\<forall>e\<in>set ticket_entries. \<forall>k\<in>set (snd e). \<not> set k \<subseteq> set whitespace"
  by code_simp

lemma expense_keywords_not_blank:
  "\<forall>e\<in>set categoryKeywords. \<forall>k\<in>set (snd e). \<not> set k \<subseteq> set whitespace"
  by code_simp

lemma blank_hits:
  assumes "set txt \<subseteq> set whitespace" and "\<forall>k\<in>set kws. \<not> set k \<subseteq> set whitespace"
  shows "hits txt kws = 0"
proof (rule hits_zero, rule ballI)
  fix k assume "k \<in> set kws"
  with assms(2) have "\<not> set k \<subseteq> set whitespace" by blast
  with assms(1) show "\<not> includes_str txt k"
    by (blast dest: includes_str_set)
qed

lemma ticket_best_blank:
  assumes "set txt \<subseteq> set whitespace"
  shows "ticket_best txt = (''General'', 0)"
proof -
  have "\<forall>e\<in>set ticket_entries. hits txt (snd e) \<le> 0"
    using ticket_keywords_not_blank blank_hits[OF assms] by simp
  then show ?thesis
    by (simp only: ticket_best_entries select_keep)
qed

lemma expense_best_blank:
  assumes "set txt \<subseteq> set whitespace"
  shows "expense_best txt = (''Other'', 0)"
proof -
  have "\<forall>e\<in>set categoryKeywords. hits txt (snd e) \<le> 0"
    using expense_keywords_not_blank blank_hits[OF assms] by simp
  then show ?thesis
    by (simp only: expense_best_def select_keep)
qed

lemma expense_category_own:
  "category (categorizeExpense d rnd) \<notin> set object_prototype_keys"
proof -
  have "fst (expense_best (toLowerCase d)) \<in> insert ''Other'' (fst ` set categoryKeywords)"
    unfolding expense_best_def by (rule select_fst)
  moreover have "insert ''Other'' (fst ` set categoryKeywords) \<inter> set object_prototype_keys = {}"
    by (simp add: categoryKeywords_def object_prototype_keys_def)
  ultimately show ?thesis
    by (auto simp: categorizeExpense_fields)
qed

lemma categorized_own:
  "\<forall>e\<in>set (categorized es rnds). category e \<notin> set object_prototype_keys"
  by (auto simp: categorized_def Let_def expense_category_own)

lemma anomalies_returns:
  assumes "\<forall>e\<in>set rs. category e \<notin> set object_prototype_keys"
  shows "\<exists>out. anomalies rs = Inr out"
  using assms by (simp add: anomalies_eq)

lemma anomalies_single:
  assumes "category e \<notin> set object_prototype_keys"
  shows "anomalies [e] = Inr []"
  using assms by (simp add: anomalies_eq exceeds_def group_of_def)

text \<open>
  C9. \<^verbatim>\<open>classifyTicket\<close> returns a result for every subject, description and random
  value; the memo returns a result for every batch that \<^verbatim>\<open>categorized\<close> builds, and for
  every batch none of whose categories is a name inherited from \<^verbatim>\<open>Object.prototype\<close>.
  For a text that is empty or white space only, the classifiers return the fallback
  category with the confidence of score 0; for the empty batch and for a batch of one
  expense the memo is empty.
\<close>

theorem never_throws:
  "(\<exists>t. classifyTicket subj descr rnd = Inr t)
   \<and> (\<exists>out. anomalies (categorized es rnds) = Inr out)
   \<and> ((\<forall>e\<in>set rs. category e \<notin> set object_prototype_keys) \<longrightarrow> (\<exists>out. anomalies rs = Inr out))
   \<and> (set subj \<union> set descr \<subseteq> set whitespace \<longrightarrow>
        (\<exists>t. classifyTicket subj descr rnd = Inr t \<and> category t = ''General''
           \<and> confidence t = ticket_confidence 0 rnd))
   \<and> (set d \<subseteq> set whitespace \<longrightarrow>
        categorizeExpense d rnd = \<lparr>category = ''Other'', confidence = expense_confidence 0 rnd\<rparr>)
   \<and> anomalies [] = Inr []
   \<and> anomalies (categorized [x] rnds) = Inr []"
proof (intro conjI impI)
  show "\<exists>t. classifyTicket subj descr rnd = Inr t"
    using classifyTicket_returns by blast
  show "\<exists>out. anomalies (categorized es rnds) = Inr out"
    using categorized_own by (rule anomalies_returns)
  show "anomalies [] = Inr []"
    by (simp add: anomalies_def)
  show "anomalies (categorized [x] rnds) = Inr []"
    by (simp add: categorized_def Let_def anomalies_single expense_category_own)
next
  assume "\<forall>e\<in>set rs. category e \<notin> set object_prototype_keys"
  then show "\<exists>out. anomalies rs = Inr out"
    by (rule anomalies_returns)
next
  assume blank: "set subj \<union> set descr \<subseteq> set whitespace"
  then have "set (subj @ '' '' @ descr) \<subseteq> set whitespace"
    by (auto simp: whitespace_def)
  then have "ticket_best (toLowerCase (subj @ '' '' @ descr)) = (''General'', 0)"
    by (intro ticket_best_blank toLowerCase_whitespace)
  moreover obtain info where "map_of categories ''General'' = Some info"
    using map_of_General by blast
  ultimately show "\<exists>t. classifyTicket subj descr rnd = Inr t \<and> category t = ''General''
           \<and> confidence t = ticket_confidence 0 rnd"
    by (rule classifyTicket_category)
next
  assume "set d \<subseteq> set whitespace"
  then have "expense_best (toLowerCase d) = (''Other'', 0)"
    by (intro expense_best_blank toLowerCase_whitespace)
  then show "categorizeExpense d rnd = \<lparr>category = ''Other'', confidence = expense_confidence 0 rnd\<rparr>"
    by (simp add: categorizeExpense_def)
qed

theorem never_throws_witness:
  "list_all (\<lambda>e. category e \<notin> set object_prototype_keys) (categorized sample_expenses zero_jitter)
   \<and> (\<exists>out. anomalies (categorized sample_expenses zero_jitter) = Inr out)
   \<and> set [CHR 0x20, CHR 0x20] \<union> set [CHR 0x09, CHR 0x0A] \<subseteq> set whitespace
   \<and> (\<exists>t. classifyTicket [CHR 0x20, CHR 0x20] [CHR 0x09, CHR 0x0A] 0 = Inr t \<and> category t = ''General''
         \<and> confidence t = ticket_confidence 0 0)
   \<and> set ([] :: string) \<subseteq> set whitespace
   \<and> categorizeExpense [] 0 = \<lparr>category = ''Other'', confidence = expense_confidence 0 0\<rparr>"
proof -
  have own: "\<forall>e\<in>set (categorized sample_expenses zero_jitter). category e \<notin> set object_prototype_keys"
    by (simp add: sample_categorized object_prototype_keys_def)
  have own': "list_all (\<lambda>e. category e \<notin> set object_prototype_keys) (categorized sample_expenses zero_jitter)"
    using own by (simp add: list_all_iff)
  have ws: "set [CHR 0x20, CHR 0x20] \<union> set [CHR 0x09, CHR 0x0A] \<subseteq> set whitespace"
    by (simp add: whitespace_def)
  have ws': "set ([] :: string) \<subseteq> set whitespace" by simp
  from never_throws[of "[CHR 0x20, CHR 0x20]" "[CHR 0x09, CHR 0x0A]" 0 _ _
      "categorized sample_expenses zero_jitter" "[]"] own own' ws ws'
  show ?thesis by blast
qed

end
